theory Spec2Isabelle
  imports Main "HOL-Library.Char_ord" "HOL-Library.List_Lexorder"
begin

section \<open>The standard library as the engine uses it\<close>

subsection \<open>time.Time\<close>

text \<open>
  A \<^verbatim>\<open>time.Time\<close> is an instant together with a location. The instant is counted in
  nanoseconds since 1970-01-01T00:00:00Z. A location is a fixed offset in seconds east of
  UTC (\<^verbatim>\<open>time.UTC\<close> is offset 0); locations with daylight-saving transitions are outside
  the model. Go's \<^verbatim>\<open>int\<close> is modelled as an unbounded integer: credit amounts of a
  personal tracker stay far away from \<open>2^63\<close>.
\<close>

record time =
  nanos :: int
  zone :: int

definition UTC :: int where
  "UTC = 0"

definition Sunday :: int where "Sunday = 0"
definition Monday :: int where "Monday = 1"
definition Thursday :: int where "Thursday = 4"

definition LogTypeStudy :: string where "LogTypeStudy = ''study''"
definition LogTypeBreak :: string where "LogTypeBreak = ''break''"

text \<open>Seconds and days on the wall clock of the time's own location.\<close>

definition wall_seconds :: "time \<Rightarrow> int" where
  "wall_seconds t = nanos t div 1000000000 + zone t"

definition wall_day :: "time \<Rightarrow> int" where
  "wall_day t = wall_seconds t div 86400"

text \<open>\<^verbatim>\<open>t.Weekday()\<close>: Sunday is 0, and 1970-01-01 was a Thursday.\<close>

definition Weekday :: "time \<Rightarrow> int" where
  "Weekday t = (wall_day t + 4) mod 7"

text \<open>\<^verbatim>\<open>t.Before(u)\<close>, \<^verbatim>\<open>t.After(u)\<close> and \<^verbatim>\<open>t.Equal(u)\<close> compare instants only.\<close>

definition Before :: "time \<Rightarrow> time \<Rightarrow> bool" where
  "Before t u = (nanos t < nanos u)"

definition After :: "time \<Rightarrow> time \<Rightarrow> bool" where
  "After t u = (nanos t > nanos u)"

definition Equal :: "time \<Rightarrow> time \<Rightarrow> bool" where
  "Equal t u = (nanos t = nanos u)"

subsection \<open>The proleptic Gregorian calendar\<close>

definition isLeap :: "int \<Rightarrow> bool" where
  "isLeap year = (year mod 4 = 0 \<and> (year mod 100 \<noteq> 0 \<or> year mod 400 = 0))"

text \<open>\<^verbatim>\<open>daysBefore[m]\<close>: days of a non-leap year before month \<open>m + 1\<close>.\<close>

definition daysBefore :: "int \<Rightarrow> int" where
  "daysBefore m = [0, 31, 59, 90, 120, 151, 181, 212, 243, 273, 304, 334, 365] ! nat m"

definition daysIn :: "int \<Rightarrow> int \<Rightarrow> int" where
  "daysIn m year = (if m = 2 \<and> isLeap year then 29 else daysBefore m - daysBefore (m - 1))"

text \<open>Days from 1970-01-01 to January 1 of \<open>year\<close>.\<close>

definition daysSinceEpoch :: "int \<Rightarrow> int" where
  "daysSinceEpoch year =
     (let y = year - 1 in 365 * y + y div 4 - y div 100 + y div 400 - 719162)"

text \<open>
  The year and the zero-based day of the year of a day number (days since 1970-01-01),
  by cutting off 400-year, 100-year, 4-year and 1-year cycles counted from 0001-01-01.
\<close>

definition year_yday :: "int \<Rightarrow> int \<times> int" where
  "year_yday dn =
     (let d = dn + 719162;
          n400 = d div 146097;
          d1 = d - 146097 * n400;
          q100 = d1 div 36524;
          n100 = q100 - q100 div 4;
          d2 = d1 - 36524 * n100;
          n4 = d2 div 1461;
          d3 = d2 - 1461 * n4;
          q1 = d3 div 365;
          n1 = q1 - q1 div 4;
          d4 = d3 - 365 * n1
      in (400 * n400 + 100 * n100 + 4 * n4 + n1 + 1, d4))"

text \<open>Month (1..12) and day of the month of a zero-based day of the year.\<close>

definition month_day :: "int \<Rightarrow> int \<Rightarrow> int \<times> int" where
  "month_day year yday =
     (if isLeap year \<and> yday = 59 then (2, 29)
      else
        let day = (if isLeap year \<and> yday > 59 then yday - 1 else yday);
            m = day div 31;
            e = daysBefore (m + 1)
        in if day \<ge> e then (m + 2, day - e + 1)
           else (m + 1, day - daysBefore m + 1))"

definition time_Year :: "time \<Rightarrow> int" where
  "time_Year t = fst (year_yday (wall_day t))"

definition time_Month :: "time \<Rightarrow> int" where
  "time_Month t = (let (y, yd) = year_yday (wall_day t) in fst (month_day y yd))"

definition time_Day :: "time \<Rightarrow> int" where
  "time_Day t = (let (y, yd) = year_yday (wall_day t) in snd (month_day y yd))"

definition time_Hour :: "time \<Rightarrow> int" where
  "time_Hour t = (wall_seconds t mod 86400) div 3600"

definition time_Minute :: "time \<Rightarrow> int" where
  "time_Minute t = (wall_seconds t mod 3600) div 60"

definition time_Second :: "time \<Rightarrow> int" where
  "time_Second t = wall_seconds t mod 60"

definition time_Nanosecond :: "time \<Rightarrow> int" where
  "time_Nanosecond t = nanos t mod 1000000000"

text \<open>
  \<^verbatim>\<open>time.Date(year, month, day, hour, min, sec, nsec, loc)\<close>. The month overflows into the
  year; day, hour, minute, second and nanosecond may be out of range and are normalised,
  which is the linear sum below.
\<close>

definition time_Date :: "int \<Rightarrow> int \<Rightarrow> int \<Rightarrow> int \<Rightarrow> int \<Rightarrow> int \<Rightarrow> int \<Rightarrow> int \<Rightarrow> time" where
  "time_Date year month day hour minute sec nsec loc =
     (let m = month - 1;
          year' = year + m div 12;
          month' = m mod 12 + 1;
          d = daysSinceEpoch year' + daysBefore (month' - 1)
              + (if isLeap year' \<and> month' \<ge> 3 then 1 else 0) + (day - 1);
          unix = d * 86400 + hour * 3600 + minute * 60 + sec - loc
      in \<lparr>nanos = unix * 1000000000 + nsec, zone = loc\<rparr>)"

text \<open>\<^verbatim>\<open>t.AddDate(years, months, days)\<close> goes through \<^verbatim>\<open>Date\<close>, which normalises.\<close>

definition AddDate :: "time \<Rightarrow> int \<Rightarrow> int \<Rightarrow> int \<Rightarrow> time" where
  "AddDate t years months days =
     time_Date (time_Year t + years) (time_Month t + months) (time_Day t + days)
       (time_Hour t) (time_Minute t) (time_Second t) (time_Nanosecond t) (zone t)"

text \<open>
  \<^verbatim>\<open>t.ISOWeek()\<close>: the year and the week number of the Thursday of the week of \<open>t\<close>
  (weeks start on Monday).
\<close>

definition ISOWeek :: "time \<Rightarrow> int \<times> int" where
  "ISOWeek t =
     (let d0 = Thursday - Weekday t;
          d = (if d0 = 4 then - 3 else d0);
          (year, yday) = year_yday (wall_day t + d)
      in (year, yday div 7 + 1))"

text \<open>The zero \<^verbatim>\<open>time.Time{}\<close>: 0001-01-01T00:00:00Z.\<close>

definition zero_time :: time where
  "zero_time = \<lparr>nanos = - 62135596800 * 1000000000, zone = UTC\<rparr>"

subsection \<open>Calendar facts\<close>

lemma divmod_bounds:
  fixes x k :: int
  assumes "0 < k"
  shows "k * (x div k) \<le> x" and "x < k * (x div k) + k"
proof -
  have "x = k * (x div k) + x mod k" by simp
  moreover have "0 \<le> x mod k" "x mod k < k" using assms by simp_all
  ultimately show "k * (x div k) \<le> x" and "x < k * (x div k) + k" by linarith+
qed

lemma cyc100:
  fixes d1 :: int
  assumes "0 \<le> d1" "d1 < 146097"
  shows "0 \<le> d1 div 36524 - d1 div 36524 div 4 \<and> d1 div 36524 - d1 div 36524 div 4 \<le> 3
     \<and> 0 \<le> d1 - 36524 * (d1 div 36524 - d1 div 36524 div 4)
     \<and> d1 - 36524 * (d1 div 36524 - d1 div 36524 div 4) \<le> 36524
     \<and> (d1 - 36524 * (d1 div 36524 - d1 div 36524 div 4) = 36524 \<longrightarrow> d1 div 36524 - d1 div 36524 div 4 = 3)"
proof -
  define q where "q = d1 div 36524"
  have q': "36524 * q \<le> d1" "d1 < 36524 * q + 36524"
    unfolding q_def using divmod_bounds[of 36524 d1] by simp_all
  then have q: "0 \<le> q" "q \<le> 4" "36524 * q \<le> d1" "d1 < 36524 * q + 36524"
    using assms by linarith+
  then consider "q = 0" | "q = 1" | "q = 2" | "q = 3" | "q = 4" by linarith
  then show ?thesis unfolding q_def[symmetric] using q assms by cases simp_all
qed

lemma cyc1:
  fixes d3 :: int
  assumes "0 \<le> d3" "d3 < 1461"
  shows "0 \<le> d3 div 365 - d3 div 365 div 4 \<and> d3 div 365 - d3 div 365 div 4 \<le> 3
     \<and> 0 \<le> d3 - 365 * (d3 div 365 - d3 div 365 div 4)
     \<and> d3 - 365 * (d3 div 365 - d3 div 365 div 4) \<le> 365
     \<and> (d3 - 365 * (d3 div 365 - d3 div 365 div 4) = 365 \<longrightarrow> d3 div 365 - d3 div 365 div 4 = 3)"
proof -
  define q where "q = d3 div 365"
  have q': "365 * q \<le> d3" "d3 < 365 * q + 365"
    unfolding q_def using divmod_bounds[of 365 d3] by simp_all
  then have q: "0 \<le> q" "q \<le> 4" "365 * q \<le> d3" "d3 < 365 * q + 365"
    using assms by linarith+
  then consider "q = 0" | "q = 1" | "q = 2" | "q = 3" | "q = 4" by linarith
  then show ?thesis unfolding q_def[symmetric] using q assms by cases simp_all
qed

lemma year_yday_res:
  assumes "year_yday dn = (y, yd)"
  shows "\<exists>a b c e d1 d2 d3. 
     d1 = (dn + 719162) - 146097 * a \<and> a = (dn + 719162) div 146097 \<and>
     b = d1 div 36524 - d1 div 36524 div 4 \<and> d2 = d1 - 36524 * b \<and>
     c = d2 div 1461 \<and> d3 = d2 - 1461 * c \<and> e = d3 div 365 - d3 div 365 div 4 \<and>
     y = 400 * a + 100 * b + 4 * c + e + 1 \<and> yd = d3 - 365 * e"
  using assms unfolding year_yday_def Let_def by blast

lemma div_decomp: "0 \<le> r \<Longrightarrow> r < k \<Longrightarrow> (k * q + r) div k = (q::int)"
  by (simp add: div_pos_pos_trivial)

lemma mod_decomp: "0 \<le> r \<Longrightarrow> r < k \<Longrightarrow> (k * q + r) mod k = (r::int)"
  by (simp add: mod_pos_pos_trivial)

lemma year_yday_props:
  assumes "year_yday dn = (y, yd)"
  shows "daysSinceEpoch y + yd = dn" and "0 \<le> yd" and "yd \<le> 365" and "yd = 365 \<Longrightarrow> isLeap y"
proof -
  from year_yday_res[OF assms] obtain a b c e d1 d2 d3 where
    d1_def: "d1 = (dn + 719162) - 146097 * a" and a_def: "a = (dn + 719162) div 146097" and
    b_def: "b = d1 div 36524 - d1 div 36524 div 4" and d2_def: "d2 = d1 - 36524 * b" and
    c_def: "c = d2 div 1461" and d3_def: "d3 = d2 - 1461 * c" and
    e_def: "e = d3 div 365 - d3 div 365 div 4" and
    y: "y = 400 * a + 100 * b + 4 * c + e + 1" and yd: "yd = d3 - 365 * e"
    by blast
  have d1: "0 \<le> d1" "d1 < 146097"
    unfolding d1_def a_def using divmod_bounds[of 146097 "dn + 719162"] by linarith+
  from cyc100[OF d1] have b: "0 \<le> b" "b \<le> 3" "0 \<le> d2" "d2 \<le> 36524" "d2 = 36524 \<longrightarrow> b = 3"
    unfolding b_def d2_def by blast+
  have "1461 * c \<le> d2" "d2 < 1461 * c + 1461"
    unfolding c_def using divmod_bounds[of 1461 d2] by simp_all
  then have c: "0 \<le> c" "c \<le> 24" and d3: "0 \<le> d3" "d3 < 1461"
    using b unfolding d3_def by linarith+
  from cyc1[OF d3] have e: "0 \<le> e" "e \<le> 3" "0 \<le> yd" "yd \<le> 365" "yd = 365 \<longrightarrow> e = 3"
    unfolding e_def yd by blast+
  define Y where "Y = 400 * a + 100 * b + 4 * c + e"
  have "Y = 4 * (100 * a + 25 * b + c) + e" unfolding Y_def by simp
  then have Y4: "Y div 4 = 100 * a + 25 * b + c"
    using div_decomp[of e 4 "100 * a + 25 * b + c"] e by simp
  have "Y = 100 * (4 * a + b) + (4 * c + e)" unfolding Y_def by simp
  then have Y100: "Y div 100 = 4 * a + b"
    using div_decomp[of "4 * c + e" 100 "4 * a + b"] e c by simp
  have "Y = 400 * a + (100 * b + 4 * c + e)" unfolding Y_def by simp
  then have Y400: "Y div 400 = a"
    using div_decomp[of "100 * b + 4 * c + e" 400 a] e c b by simp
  have yY: "y - 1 = Y" unfolding y Y_def by simp
  have "daysSinceEpoch y = 365 * Y + Y div 4 - Y div 100 + Y div 400 - 719162"
    unfolding daysSinceEpoch_def Let_def yY by simp
  also have "\<dots> = 146097 * a + 36524 * b + 1461 * c + 365 * e - 719162"
    unfolding Y4 Y100 Y400 unfolding Y_def by (simp add: algebra_simps)
  finally have "daysSinceEpoch y = 146097 * a + 36524 * b + 1461 * c + 365 * e - 719162" .
  then show "daysSinceEpoch y + yd = dn"
    using yd d3_def d2_def d1_def by linarith
  show "0 \<le> yd" "yd \<le> 365" using e by simp_all
  show "isLeap y" if "yd = 365"
  proof -
    have e3: "e = 3" using that e by simp
    then have d3v: "d3 = 1460" using that yd by simp
    have y': "y = 400 * a + 100 * b + 4 * c + 4" using y e3 by simp
    show ?thesis
    proof (cases "c = 24")
      case True
      then have "d2 = 36524" using d3v unfolding d3_def by simp
      then have "b = 3" using b by simp
      then have "y = 400 * (a + 1)" using y' True by simp
      then show ?thesis unfolding isLeap_def by simp
    next
      case False
      then have c': "0 \<le> c" "c < 24" using c by simp_all
      have "y = 4 * (100 * a + 25 * b + c + 1)" unfolding y' by simp
      then have m4: "y mod 4 = 0" by simp
      have "y = 100 * (4 * a + b) + (4 * c + 4)" unfolding y' by simp
      then have "y mod 100 = 4 * c + 4"
        using mod_decomp[of "4 * c + 4" 100 "4 * a + b"] c' by simp
      then have "y mod 100 \<noteq> 0" using c' by simp
      then show ?thesis using m4 unfolding isLeap_def by simp
    qed
  qed
qed

lemma daysBefore_simps:
  "daysBefore 0 = 0" "daysBefore 1 = 31" "daysBefore 2 = 59" "daysBefore 3 = 90"
  "daysBefore 4 = 120" "daysBefore 5 = 151" "daysBefore 6 = 181" "daysBefore 7 = 212"
  "daysBefore 8 = 243" "daysBefore 9 = 273" "daysBefore 10 = 304" "daysBefore 11 = 334"
  "daysBefore 12 = 365"
  by (simp_all add: daysBefore_def)

lemma int_range4:
  fixes k x :: int
  shows "k \<le> x \<Longrightarrow> x \<le> k + 3 \<Longrightarrow> x = k \<or> x = k + 1 \<or> x = k + 2 \<or> x = k + 3"
  by linarith

text \<open>The non-leap table lookup.\<close>

lemma month_lookup:
  fixes day :: int
  assumes "0 \<le> day" "day \<le> 364"
  defines "m0 \<equiv> day div 31"
  defines "md \<equiv> (if day \<ge> daysBefore (m0 + 1) then (m0 + 2, day - daysBefore (m0 + 1) + 1)
           else (m0 + 1, day - daysBefore m0 + 1))"
  shows "1 \<le> fst md" "fst md \<le> 12" "1 \<le> snd md" "snd md \<le> daysBefore (fst md) - daysBefore (fst md - 1)"
    "daysBefore (fst md - 1) + (snd md - 1) = day"
    "(day < 59) = (fst md \<le> 2)" "(day < 31) = (fst md = 1)"
proof -
  have "31 * m0 \<le> day" "day < 31 * m0 + 31"
    unfolding m0_def using divmod_bounds[of 31 day] by simp_all
  then have "0 \<le> m0" "m0 \<le> 11" using assms(1,2) by linarith+
  then have r1: "m0 \<le> 3 \<Longrightarrow> m0 = 0 \<or> m0 = 1 \<or> m0 = 2 \<or> m0 = 3"
    and r3: "8 \<le> m0 \<Longrightarrow> m0 = 8 \<or> m0 = 9 \<or> m0 = 10 \<or> m0 = 11" by linarith+
  have r2: "4 \<le> m0 \<Longrightarrow> m0 \<le> 7 \<Longrightarrow> m0 = 4 \<or> m0 = 5 \<or> m0 = 6 \<or> m0 = 7" by linarith
  have "m0 \<le> 3 \<or> (4 \<le> m0 \<and> m0 \<le> 7) \<or> 8 \<le> m0" by linarith
  then consider "m0 = 0" | "m0 = 1" | "m0 = 2" | "m0 = 3" | "m0 = 4" | "m0 = 5" | "m0 = 6"
    | "m0 = 7" | "m0 = 8" | "m0 = 9" | "m0 = 10" | "m0 = 11" using r1 r2 r3 by blast
  then have "1 \<le> fst md \<and> fst md \<le> 12 \<and> 1 \<le> snd md \<and> snd md \<le> daysBefore (fst md) - daysBefore (fst md - 1)
     \<and> daysBefore (fst md - 1) + (snd md - 1) = day \<and> (day < 59) = (fst md \<le> 2) \<and> (day < 31) = (fst md = 1)"
    using \<open>31 * m0 \<le> day\<close> \<open>day < 31 * m0 + 31\<close> assms(1,2) unfolding md_def
    by cases (simp_all add: daysBefore_simps)
  then show "1 \<le> fst md" "fst md \<le> 12" "1 \<le> snd md" "snd md \<le> daysBefore (fst md) - daysBefore (fst md - 1)"
    "daysBefore (fst md - 1) + (snd md - 1) = day"
    "(day < 59) = (fst md \<le> 2)" "(day < 31) = (fst md = 1)" by blast+
qed

lemma month_day_props:
  assumes yd: "0 \<le> yd" "yd \<le> 365" "yd = 365 \<Longrightarrow> isLeap y"
    and md: "month_day y yd = (m, d)"
  shows "1 \<le> m" and "m \<le> 12" and "1 \<le> d" and "d \<le> daysIn m y"
    and "daysBefore (m - 1) + (if isLeap y \<and> 3 \<le> m then 1 else 0) + (d - 1) = yd"
proof -
  have "1 \<le> m \<and> m \<le> 12 \<and> 1 \<le> d \<and> d \<le> daysIn m y
    \<and> daysBefore (m - 1) + (if isLeap y \<and> 3 \<le> m then 1 else 0) + (d - 1) = yd"
  proof (cases "isLeap y \<and> yd = 59")
    case True
    then have "m = 2" "d = 29" using md unfolding month_day_def by simp_all
    then show ?thesis using True by (simp add: daysIn_def daysBefore_simps)
  next
    case False
    define day where "day = (if isLeap y \<and> yd > 59 then yd - 1 else yd)"
    have "yd \<le> 364 \<or> yd = 365" using yd(2) by linarith
    then have day: "0 \<le> day" "day \<le> 364" using yd False unfolding day_def by auto
    define r where "r = (if day \<ge> daysBefore (day div 31 + 1)
           then (day div 31 + 2, day - daysBefore (day div 31 + 1) + 1)
           else (day div 31 + 1, day - daysBefore (day div 31) + 1))"
    have "month_day y yd = r"
      unfolding month_day_def Let_def r_def day_def if_not_P[OF False] by (rule refl)
    then have "r = (m, d)" using md by simp
    then have r: "fst r = m" "snd r = d" by simp_all
    note L = month_lookup[OF day, folded r_def, unfolded r]
    show ?thesis
    proof (cases "isLeap y \<and> yd > 59")
      case True
      then have "\<not> day < 59" unfolding day_def by simp
      then have "3 \<le> m" using L(6) by simp
      then show ?thesis using L True unfolding day_def daysIn_def by simp
    next
      case F2: False
      then have dy: "day = yd" unfolding day_def by simp
      show ?thesis
      proof (cases "isLeap y")
        case True
        then have "yd < 59" using F2 False by simp
        then have "m \<le> 2" using L(6) dy by simp
        then show ?thesis using L True dy unfolding daysIn_def by (auto simp: daysBefore_simps)
      next
        case False
        then show ?thesis using L dy unfolding daysIn_def by simp
      qed
    qed
  qed
  then show "1 \<le> m" and "m \<le> 12" and "1 \<le> d" and "d \<le> daysIn m y"
    and "daysBefore (m - 1) + (if isLeap y \<and> 3 \<le> m then 1 else 0) + (d - 1) = yd" by blast+
qed

text \<open>The civil date of a day number, put back through \<open>time_Date\<close>.\<close>

lemma civil_valid:
  "1 \<le> time_Month t" "time_Month t \<le> 12" "1 \<le> time_Day t"
  "time_Day t \<le> daysIn (time_Month t) (time_Year t)"
  "daysSinceEpoch (time_Year t) + daysBefore (time_Month t - 1)
     + (if isLeap (time_Year t) \<and> 3 \<le> time_Month t then 1 else 0) + (time_Day t - 1) = wall_day t"
proof -
  obtain y yd where yy: "year_yday (wall_day t) = (y, yd)" by (cases "year_yday (wall_day t)")
  obtain m d where md: "month_day y yd = (m, d)" by (cases "month_day y yd")
  have eqs: "time_Year t = y" "time_Month t = m" "time_Day t = d"
    unfolding time_Year_def time_Month_def time_Day_def yy by (simp_all add: md)
  note Y = year_yday_props[OF yy]
  note M = month_day_props[OF Y(2) Y(3) Y(4) md]
  show "1 \<le> time_Month t" "time_Month t \<le> 12" "1 \<le> time_Day t"
    "time_Day t \<le> daysIn (time_Month t) (time_Year t)"
    unfolding eqs using M by simp_all
  show "daysSinceEpoch (time_Year t) + daysBefore (time_Month t - 1)
     + (if isLeap (time_Year t) \<and> 3 \<le> time_Month t then 1 else 0) + (time_Day t - 1) = wall_day t"
    unfolding eqs using M(5) Y(1) by linarith
qed

lemma time_Date_civil:
  "time_Date (time_Year t) (time_Month t) (time_Day t + n) h mi s ns loc
     = \<lparr>nanos = ((wall_day t + n) * 86400 + h * 3600 + mi * 60 + s - loc) * 1000000000 + ns,
        zone = loc\<rparr>"
proof -
  have m: "(time_Month t - 1) div 12 = 0" "(time_Month t - 1) mod 12 + 1 = time_Month t"
    using civil_valid(1,2)[of t] by (simp_all add: div_pos_pos_trivial mod_pos_pos_trivial)
  have "daysSinceEpoch (time_Year t) + daysBefore (time_Month t - 1)
     + (if isLeap (time_Year t) \<and> 3 \<le> time_Month t then 1 else 0) + (time_Day t + n - 1) = wall_day t + n"
    using civil_valid(5)[of t] by linarith
  then show ?thesis unfolding time_Date_def Let_def m by simp
qed

lemma clock_sum:
  "time_Hour t * 3600 + time_Minute t * 60 + time_Second t = wall_seconds t mod 86400"
proof -
  define w where "w = wall_seconds t"
  define r where "r = w mod 86400"
  have a: "r mod 3600 = w mod 3600" unfolding r_def by (simp add: mod_mod_cancel)
  have b: "(w mod 3600) mod 60 = w mod 60" by (simp add: mod_mod_cancel)
  have "r = 3600 * (r div 3600) + r mod 3600" by simp
  moreover have "w mod 3600 = 60 * ((w mod 3600) div 60) + (w mod 3600) mod 60" by simp
  ultimately have "r = (r div 3600) * 3600 + ((w mod 3600) div 60) * 60 + w mod 60"
    using a b by linarith
  then show ?thesis unfolding time_Hour_def time_Minute_def time_Second_def w_def r_def by simp
qed

lemma AddDate_days:
  "AddDate t 0 0 n = \<lparr>nanos = nanos t + n * 86400000000000, zone = zone t\<rparr>"
proof -
  have w: "wall_seconds t = 86400 * wall_day t + wall_seconds t mod 86400"
    unfolding wall_day_def by simp
  have ns: "nanos t = 1000000000 * (nanos t div 1000000000) + time_Nanosecond t"
    unfolding time_Nanosecond_def by simp
  have "((wall_day t + n) * 86400 + time_Hour t * 3600 + time_Minute t * 60 + time_Second t - zone t)
      = nanos t div 1000000000 + n * 86400"
    using clock_sum[of t] w unfolding wall_seconds_def by (simp add: algebra_simps)
  then have "((wall_day t + n) * 86400 + time_Hour t * 3600 + time_Minute t * 60 + time_Second t - zone t)
      * 1000000000 + time_Nanosecond t = nanos t + n * 86400000000000"
    using ns by (simp add: algebra_simps)
  then show ?thesis unfolding AddDate_def using time_Date_civil[of t n] by simp
qed

lemma wall_day_shift:
  "wall_day \<lparr>nanos = nanos t + n * 86400000000000, zone = z\<rparr> = wall_day \<lparr>nanos = nanos t, zone = z\<rparr> + n"
proof -
  have "(nanos t + n * 86400000000000) div 1000000000 = nanos t div 1000000000 + n * 86400"
    using div_mult_self1[of 1000000000 "nanos t" "n * 86400"] by (simp add: algebra_simps)
  then have "wall_seconds \<lparr>nanos = nanos t + n * 86400000000000, zone = z\<rparr>
      = wall_seconds \<lparr>nanos = nanos t, zone = z\<rparr> + n * 86400"
    unfolding wall_seconds_def by simp
  then show ?thesis unfolding wall_day_def
    using div_mult_self1[of 86400 "wall_seconds \<lparr>nanos = nanos t, zone = z\<rparr>" n] by (simp add: algebra_simps)
qed

lemma wall_day_AddDate: "wall_day (AddDate t 0 0 n) = wall_day t + n"
  unfolding AddDate_days using wall_day_shift[of t n "zone t"]
  by (simp add: wall_day_def wall_seconds_def)

lemma Weekday_AddDate: "Weekday (AddDate t 0 0 n) = (Weekday t + n) mod 7"
  unfolding Weekday_def wall_day_AddDate by (simp add: mod_simps algebra_simps)

subsection \<open>Decimal text\<close>

definition digit_char :: "nat \<Rightarrow> char" where
  "digit_char n = char_of (48 + n)"

definition isDigit :: "char \<Rightarrow> bool" where
  "isDigit c = (48 \<le> (of_char c :: nat) \<and> (of_char c :: nat) \<le> 57)"

definition digit_val :: "char \<Rightarrow> nat" where
  "digit_val c = of_char c - 48"

fun dec :: "nat \<Rightarrow> string" where
  "dec n = (if n < 10 then [digit_char n] else dec (n div 10) @ [digit_char (n mod 10)])"

declare dec.simps [simp del]

definition digits_val :: "string \<Rightarrow> nat" where
  "digits_val ds = foldl (\<lambda>a c. 10 * a + digit_val c) 0 ds"

definition pad_zero :: "nat \<Rightarrow> string \<Rightarrow> string" where
  "pad_zero w ds = replicate (w - length ds) (CHR ''0'') @ ds"

text \<open>
  The time package's \<^verbatim>\<open>appendInt(b, x, width)\<close>: a sign for a negative number, then the
  digits padded with zeros to the width.
\<close>

definition appendInt :: "int \<Rightarrow> nat \<Rightarrow> string" where
  "appendInt x w =
     (if x < 0 then CHR ''-'' # pad_zero w (dec (nat (- x))) else pad_zero w (dec (nat x)))"

text \<open>\<^verbatim>\<open>t.Format("2006-01-02")\<close>.\<close>

definition Format :: "time \<Rightarrow> string" where
  "Format t =
     appendInt (time_Year t) 4 @ ''-'' @ appendInt (time_Month t) 2 @ ''-''
       @ appendInt (time_Day t) 2"

definition atoi_digits :: "string \<Rightarrow> int option" where
  "atoi_digits ds = (if ds \<noteq> [] \<and> list_all isDigit ds then Some (int (digits_val ds)) else None)"

text \<open>
  \<^verbatim>\<open>time.Parse("2006-01-02", value)\<close>: four digits, a dash, two digits, a dash, two
  digits and nothing else; the month must be 1..12 and the day must exist in that month.
  The result is midnight UTC of that date; \<open>None\<close> is the parse error.
\<close>

definition Parse :: "string \<Rightarrow> time option" where
  "Parse v =
     (if length v \<noteq> 10 \<or> v ! 4 \<noteq> CHR ''-'' \<or> v ! 7 \<noteq> CHR ''-'' then None
      else
        case (atoi_digits (take 4 v), atoi_digits (take 2 (drop 5 v)),
              atoi_digits (take 2 (drop 8 v))) of
          (Some year, Some month, Some day) \<Rightarrow>
            if month < 1 \<or> 12 < month then None
            else if day < 1 \<or> daysIn month year < day then None
            else Some (time_Date year month day 0 0 0 0 UTC)
        | _ \<Rightarrow> None)"

text \<open>\<^verbatim>\<open>fmt.Sprintf("%d-%02d", year, week)\<close>.\<close>

definition fmt_d :: "int \<Rightarrow> string" where
  "fmt_d x = (if x < 0 then CHR ''-'' # dec (nat (- x)) else dec (nat x))"

definition fmt_02d :: "int \<Rightarrow> string" where
  "fmt_02d x = (if x < 0 then CHR ''-'' # pad_zero 1 (dec (nat (- x))) else pad_zero 2 (dec (nat x)))"

definition Sprintf_d_02d :: "int \<Rightarrow> int \<Rightarrow> string" where
  "Sprintf_d_02d year week = fmt_d year @ ''-'' @ fmt_02d week"

text \<open>
  One \<^verbatim>\<open>%d\<close> of \<^verbatim>\<open>fmt.Sscanf\<close>: leading blanks are skipped, a sign is accepted, at
  least one digit must follow, and the value must fit 64 bits. The result is the number
  and the rest of the input.
\<close>

definition isBlank :: "char \<Rightarrow> bool" where
  "isBlank c = (c = CHR '' '' \<or> c = CHR 0x09)"

definition scan_int :: "string \<Rightarrow> (int \<times> string) option" where
  "scan_int s =
     (let s1 = dropWhile isBlank s;
          neg = (s1 \<noteq> [] \<and> hd s1 = CHR ''-'');
          s2 = (if s1 \<noteq> [] \<and> (hd s1 = CHR ''-'' \<or> hd s1 = CHR ''+'') then tl s1 else s1);
          ds = takeWhile isDigit s2;
          x = (if neg then - int (digits_val ds) else int (digits_val ds))
      in if ds = [] then None
         else if x < - 9223372036854775808 \<or> 9223372036854775807 < x then None
         else Some (x, dropWhile isDigit s2))"

text \<open>\<^verbatim>\<open>fmt.Sscanf(s, "%d-%d", &a, &b)\<close>; \<open>None\<close> is the error.\<close>

definition Sscanf_d_d :: "string \<Rightarrow> (int \<times> int) option" where
  "Sscanf_d_d s =
     (case scan_int s of
        None \<Rightarrow> None
      | Some (a, r) \<Rightarrow>
          if r \<noteq> [] \<and> hd r = CHR ''-'' then
            (case scan_int (tl r) of None \<Rightarrow> None | Some (b, r') \<Rightarrow> Some (a, b))
          else None)"

section \<open>internal/data: the state\<close>

record Log =
  Type :: string
  Timestamp :: time
  Amount :: int

record Day =
  Date :: string
  Day_Logs :: "Log list"

record UndoItem =
  Undo_Log :: Log
  DayDate :: string

record Config =
  WeeklyGoal :: int
  BreakStart :: int

record AppState =
  Logs :: "Day list"
  WeeklySurplus :: "string \<rightharpoonup> int"
  Streak :: int
  BestSurplus :: int
  UndoStack :: "UndoItem list"
  Config :: Config

text \<open>The errors the engine returns, one constructor per message.\<close>

datatype error =
  ErrSundayLogging
  | ErrAmountNotPositive
  | ErrNothingToUndo
  | ErrDayNotFound string
  | ErrLogNotFound string

section \<open>internal/timeutil\<close>

definition GetWeekBounds :: "time \<Rightarrow> time \<times> time" where
  "GetWeekBounds t =
     (let weekday = Weekday t;
          adj = weekday - 1;
          adjWeekday = (if adj < 0 then 6 else adj);
          start0 = AddDate t 0 0 (- adjWeekday);
          end0 = AddDate start0 0 0 6;
          start = time_Date (time_Year start0) (time_Month start0) (time_Day start0) 0 0 0 0 (zone t);
          endw = time_Date (time_Year end0) (time_Month end0) (time_Day end0) 0 0 0 0 (zone t)
      in (start, endw))"

definition GetWeekID :: "time \<Rightarrow> string" where
  "GetWeekID t = (let (year, week) = ISOWeek t in Sprintf_d_02d year week)"

text \<open>
  \<^verbatim>\<open>GetDayLogs\<close> returns a pointer into \<^verbatim>\<open>state.Logs\<close>: here the index of the first
  day with that date string, \<open>None\<close> when there is none.
\<close>

fun day_index :: "Day list \<Rightarrow> string \<Rightarrow> nat option" where
  "day_index [] dateStr = None"
| "day_index (d # ds) dateStr =
     (if Date d = dateStr then Some 0 else map_option Suc (day_index ds dateStr))"

definition GetDayLogs :: "AppState \<Rightarrow> string \<Rightarrow> nat option" where
  "GetDayLogs state dateStr = day_index (Logs state) dateStr"

text \<open>The insertion index: one past the last day before the first day with a greater date.\<close>

fun insert_index :: "Day list \<Rightarrow> string \<Rightarrow> nat" where
  "insert_index [] dateStr = 0"
| "insert_index (d # ds) dateStr =
     (if Date d > dateStr then 0 else Suc (insert_index ds dateStr))"

definition GetOrCreateDayLogs :: "AppState \<Rightarrow> time \<Rightarrow> AppState \<times> nat" where
  "GetOrCreateDayLogs state date =
     (let dateStr = Format date in
      case GetDayLogs state dateStr of
        Some i \<Rightarrow> (state, i)
      | None \<Rightarrow>
          let newDay = \<lparr>Date = dateStr, Day_Logs = []\<rparr>;
              insertIndex = insert_index (Logs state) dateStr
          in (state\<lparr>Logs := take insertIndex (Logs state) @ [newDay] @ drop insertIndex (Logs state)\<rparr>,
              insertIndex))"

section \<open>internal/logic: the accounting engine\<close>

text \<open>
  The engine reads the clock with \<^verbatim>\<open>time.Now()\<close>; the operations below take that
  reading as the parameter \<open>now\<close> (one reading per operation).
\<close>

text \<open>
  The test the three aggregation loops share: the day's date is at or after the start of
  the week and at or before its end.
\<close>

definition in_week :: "time \<Rightarrow> time \<Rightarrow> time \<Rightarrow> bool" where
  "in_week dayDate startOfWeek endOfWeek =
     ((Equal dayDate startOfWeek \<or> After dayDate startOfWeek)
      \<and> (Equal dayDate endOfWeek \<or> Before dayDate endOfWeek))"

fun RemoveDay_loop :: "Day list \<Rightarrow> string \<Rightarrow> Day list \<Rightarrow> Day list" where
  "RemoveDay_loop [] dateStr newLogs = newLogs"
| "RemoveDay_loop (day # days) dateStr newLogs =
     RemoveDay_loop days dateStr (if Date day \<noteq> dateStr then newLogs @ [day] else newLogs)"

definition RemoveDay :: "AppState \<Rightarrow> string \<Rightarrow> AppState" where
  "RemoveDay state dateStr = state\<lparr>Logs := RemoveDay_loop (Logs state) dateStr []\<rparr>"

subsection \<open>CalculateCurrentWeekStats\<close>





subsection \<open>RecalculateWeeklyStats\<close>

text \<open>\<^verbatim>\<open>for t.Weekday() != time.Monday { t = t.AddDate(0, 0, 1) }\<close>\<close>

function first_monday :: "time \<Rightarrow> time" where
  "first_monday t = (if Weekday t \<noteq> Monday then first_monday (AddDate t 0 0 1) else t)"
  by pat_completeness auto
termination
proof (relation "measure (\<lambda>t. nat ((1 - Weekday t) mod 7))")
  show "wf (measure (\<lambda>t. nat ((1 - Weekday t) mod 7)))" by simp
next
  fix t
  assume "Weekday t \<noteq> Monday"
  then have w: "Weekday t \<noteq> 1" "0 \<le> Weekday t" "Weekday t < 7"
    unfolding Monday_def Weekday_def by simp_all
  have "(1 - (Weekday t + 1) mod 7) mod 7 < (1 - Weekday t) mod 7"
    using w by presburger
  then show "(AddDate t 0 0 1, t) \<in> measure (\<lambda>t. nat ((1 - Weekday t) mod 7))"
    by (simp add: Weekday_AddDate)
qed

declare first_monday.simps [simp del]

text \<open>
  The reverse resolution of a week identifier to a date of that week, as
  \<^verbatim>\<open>RecalculateWeeklyStats\<close> does it; \<open>None\<close> when the identifier does not scan.
\<close>

definition week_date :: "string \<Rightarrow> time option" where
  "week_date weekID =
     (case Sscanf_d_d weekID of
        None \<Rightarrow> None
      | Some (year, weekNum) \<Rightarrow>
          let t0 = first_monday (time_Date year 1 1 0 0 0 0 UTC);
              t1 = AddDate t0 0 0 ((weekNum - 1) * 7);
              (yCheck, wCheck) = ISOWeek t1
          in Some (if yCheck \<noteq> year \<or> wCheck \<noteq> weekNum
                   then AddDate t1 0 0 ((weekNum - wCheck) * 7)
                   else t1))"

fun study_logs :: "Log list \<Rightarrow> int \<Rightarrow> int" where
  "study_logs [] studyCredits = studyCredits"
| "study_logs (l # ls) studyCredits =
     study_logs ls (if Type l = LogTypeStudy then studyCredits + Amount l else studyCredits)"

fun week_study :: "time \<Rightarrow> time \<Rightarrow> Day list \<Rightarrow> int \<Rightarrow> int" where
  "week_study startOfWeek endOfWeek [] studyCredits = studyCredits"
| "week_study startOfWeek endOfWeek (day # days) studyCredits =
     week_study startOfWeek endOfWeek days
       (case Parse (Date day) of
          None \<Rightarrow> studyCredits
        | Some dayDate \<Rightarrow>
            if in_week dayDate startOfWeek endOfWeek then
              (if Weekday dayDate \<noteq> Sunday then study_logs (Day_Logs day) studyCredits
               else studyCredits)
            else studyCredits)"

definition RecalculateWeeklyStats :: "AppState \<Rightarrow> string \<Rightarrow> AppState" where
  "RecalculateWeeklyStats state weekID =
     (case week_date weekID of
        None \<Rightarrow> state
      | Some t \<Rightarrow>
          let (startOfWeek, endOfWeek) = GetWeekBounds t;
              studyCredits = week_study startOfWeek endOfWeek (Logs state) 0;
              surplus = (if studyCredits \<ge> WeeklyGoal (Config state)
                         then (studyCredits - WeeklyGoal (Config state)) * 2 else 0)
          in state\<lparr>WeeklySurplus := (WeeklySurplus state)(weekID \<mapsto> surplus),
                   BestSurplus := (if surplus > BestSurplus state then surplus else BestSurplus state)\<rparr>)"

subsection \<open>RecalculateOverallStats\<close>

text \<open>The scan of one past week; the accumulator is (studyCredits, foundLogs).\<close>

fun week_scan :: "time \<Rightarrow> time \<Rightarrow> Day list \<Rightarrow> int \<times> bool \<Rightarrow> int \<times> bool" where
  "week_scan startOfWeek endOfWeek [] acc = acc"
| "week_scan startOfWeek endOfWeek (day # days) acc =
     week_scan startOfWeek endOfWeek days
       (case Parse (Date day) of
          None \<Rightarrow> acc
        | Some dayDate \<Rightarrow>
            if in_week dayDate startOfWeek endOfWeek then
              (if Weekday dayDate \<noteq> Sunday then (study_logs (Day_Logs day) (fst acc), True)
               else acc)
            else acc)"

text \<open>
  The backward walk. Each iteration examines the week of \<open>checkTime\<close>; the loop is left
  when that week is the current one, when it has no logs or misses the goal, and, after
  counting it, when the next \<open>checkTime\<close> lies more than five years back or the store is empty.
\<close>

function streak_loop :: "AppState \<Rightarrow> time \<Rightarrow> string \<Rightarrow> time \<Rightarrow> int \<Rightarrow> int" where
  "streak_loop state now currentWeekID checkTime currentStreak =
     (if GetWeekID checkTime = currentWeekID then currentStreak
      else if \<not> snd (week_scan (fst (GetWeekBounds checkTime)) (snd (GetWeekBounds checkTime))
                        (Logs state) (0, False))
              \<or> fst (week_scan (fst (GetWeekBounds checkTime)) (snd (GetWeekBounds checkTime))
                        (Logs state) (0, False)) < WeeklyGoal (Config state)
      then currentStreak
      else if Logs state \<noteq> [] \<and> Before (AddDate checkTime 0 0 (- 7)) (AddDate now (- 5) 0 0)
      then currentStreak + 1
      else if Logs state = [] then currentStreak + 1
      else streak_loop state now currentWeekID (AddDate checkTime 0 0 (- 7)) (currentStreak + 1))"
  by pat_completeness auto
termination
proof (relation "measure (\<lambda>(state, now, cur, checkTime, n).
          nat (nanos checkTime - nanos (AddDate now (- 5) 0 0)))")
  show "wf (measure (\<lambda>(state, now, cur, checkTime, n).
          nat (nanos checkTime - nanos (AddDate now (- 5) 0 0))))" by simp
next
  fix state :: AppState and now checkTime :: time and currentWeekID :: string
    and currentStreak :: int
  assume "\<not> (Logs state \<noteq> [] \<and> Before (AddDate checkTime 0 0 (- 7)) (AddDate now (- 5) 0 0))"
    and "Logs state \<noteq> []"
  then have "nanos (AddDate now (- 5) 0 0) \<le> nanos (AddDate checkTime 0 0 (- 7))"
    unfolding Before_def by simp
  then have "nanos (AddDate now (- 5) 0 0) \<le> nanos checkTime - 7 * 86400000000000"
    unfolding AddDate_days[of checkTime] by simp
  then show "((state, now, currentWeekID, AddDate checkTime 0 0 (- 7), currentStreak + 1),
              (state, now, currentWeekID, checkTime, currentStreak))
            \<in> measure (\<lambda>(state, now, cur, checkTime, n).
                 nat (nanos checkTime - nanos (AddDate now (- 5) 0 0)))"
    unfolding AddDate_days[of checkTime] by simp
qed

declare streak_loop.simps [simp del]

definition RecalculateOverallStats :: "time \<Rightarrow> AppState \<Rightarrow> AppState" where
  "RecalculateOverallStats now state =
     state\<lparr>Streak := streak_loop state now (GetWeekID now) (AddDate now 0 0 (- 7)) 0\<rparr>"

subsection \<open>AddLog, UndoLastAction, ResetWeekData\<close>

text \<open>
  The operations mutate the state behind a pointer and return an error or \<^verbatim>\<open>nil\<close>: here
  they return the state they leave behind together with the error, if any.
\<close>

definition AddLog :: "AppState \<Rightarrow> string \<Rightarrow> int \<Rightarrow> time \<Rightarrow> AppState \<times> error option" where
  "AddLog state logType amount timestamp =
     (if Weekday timestamp = Sunday then (state, Some ErrSundayLogging)
      else if amount \<le> 0 then (state, Some ErrAmountNotPositive)
      else
        let (state1, i) = GetOrCreateDayLogs state timestamp;
            day = Logs state1 ! i;
            newLog = \<lparr>Type = logType, Timestamp = timestamp, Amount = amount\<rparr>;
            day' = day\<lparr>Day_Logs := sort_key (\<lambda>l. nanos (Timestamp l)) (Day_Logs day @ [newLog])\<rparr>;
            state2 = state1\<lparr>Logs := (Logs state1)[i := day'],
                            UndoStack := UndoStack state1 @ [\<lparr>Undo_Log = newLog, DayDate = Date day\<rparr>]\<rparr>
        in (RecalculateWeeklyStats state2 (GetWeekID timestamp), None))"

text \<open>The index of the first log of the day that matches the undone one.\<close>

fun find_log :: "Log list \<Rightarrow> Log \<Rightarrow> nat option" where
  "find_log [] u = None"
| "find_log (l # ls) u =
     (if Equal (Timestamp l) (Timestamp u) \<and> Amount l = Amount u \<and> Type l = Type u then Some 0
      else map_option Suc (find_log ls u))"

definition UndoLastAction :: "time \<Rightarrow> AppState \<Rightarrow> AppState \<times> (error + Log)" where
  "UndoLastAction now state =
     (if UndoStack state = [] then (state, Inl ErrNothingToUndo)
      else
        let lastUndoItem = last (UndoStack state);
            state1 = state\<lparr>UndoStack := butlast (UndoStack state)\<rparr>
        in case GetDayLogs state1 (DayDate lastUndoItem) of
             None \<Rightarrow> (state1, Inl (ErrDayNotFound (DayDate lastUndoItem)))
           | Some i \<Rightarrow>
               let day = Logs state1 ! i in
               case find_log (Day_Logs day) (Undo_Log lastUndoItem) of
                 None \<Rightarrow> (state1, Inl (ErrLogNotFound (DayDate lastUndoItem)))
               | Some originalLogIndex \<Rightarrow>
                   let logs' = take originalLogIndex (Day_Logs day)
                                 @ drop (Suc originalLogIndex) (Day_Logs day);
                       state2 = state1\<lparr>Logs := (Logs state1)[i := day\<lparr>Day_Logs := logs'\<rparr>]\<rparr>;
                       state3 = (if logs' = [] then RemoveDay state2 (DayDate lastUndoItem) else state2);
                       undoneLogTime = (case Parse (DayDate lastUndoItem) of
                                          None \<Rightarrow> zero_time | Some t \<Rightarrow> t);
                       state4 = RecalculateWeeklyStats state3 (GetWeekID undoneLogTime)
                   in (RecalculateOverallStats now state4, Inr (Undo_Log lastUndoItem)))"

fun ResetWeekData_loop :: "time \<Rightarrow> time \<Rightarrow> Day list \<Rightarrow> Day list \<Rightarrow> Day list" where
  "ResetWeekData_loop startOfWeek endOfWeek [] newLogs = newLogs"
| "ResetWeekData_loop startOfWeek endOfWeek (day # days) newLogs =
     ResetWeekData_loop startOfWeek endOfWeek days
       (case Parse (Date day) of
          None \<Rightarrow> newLogs @ [day]
        | Some dayDate \<Rightarrow>
            if Before dayDate startOfWeek \<or> After dayDate endOfWeek then newLogs @ [day]
            else newLogs)"

definition ResetWeekData :: "time \<Rightarrow> AppState \<Rightarrow> AppState \<times> error option" where
  "ResetWeekData now state =
     (let (startOfWeek, endOfWeek) = GetWeekBounds now;
          currentWeekID = GetWeekID now;
          state1 = state\<lparr>Logs := ResetWeekData_loop startOfWeek endOfWeek (Logs state) [],
                          WeeklySurplus := (WeeklySurplus state)(currentWeekID := None),
                          UndoStack := []\<rparr>
      in (RecalculateOverallStats now state1, None))"

section \<open>Reference definitions\<close>

text \<open>
  The aggregates the properties speak about, written declaratively. A bucket lies in a
  week when its date string parses and the parsed date (midnight UTC, as \<^verbatim>\<open>time.Parse\<close>
  returns it) is at or after the start and at or before the end of the week; it is counted
  when, in addition, that date is not a Sunday.
\<close>

definition day_in_week :: "time \<Rightarrow> time \<Rightarrow> Day \<Rightarrow> bool" where
  "day_in_week startOfWeek endOfWeek day =
     (case Parse (Date day) of None \<Rightarrow> False | Some dayDate \<Rightarrow> in_week dayDate startOfWeek endOfWeek)"

definition day_counted :: "time \<Rightarrow> time \<Rightarrow> Day \<Rightarrow> bool" where
  "day_counted startOfWeek endOfWeek day =
     (case Parse (Date day) of
        None \<Rightarrow> False
      | Some dayDate \<Rightarrow> in_week dayDate startOfWeek endOfWeek \<and> Weekday dayDate \<noteq> Sunday)"

definition week_logs :: "time \<Rightarrow> time \<Rightarrow> Day list \<Rightarrow> Log list" where
  "week_logs startOfWeek endOfWeek days =
     concat (map Day_Logs (filter (day_counted startOfWeek endOfWeek) days))"

definition credits :: "string \<Rightarrow> Log list \<Rightarrow> int" where
  "credits kind ls = sum_list (map Amount (filter (\<lambda>l. Type l = kind) ls))"


text \<open>
  The walk of the streak: the \<open>k\<close>-th week before the current one is the week of the
  moment \<open>7 * k\<close> days before \<open>now\<close>. It qualifies when at least one counted bucket lies
  in it and the study credits of its counted buckets reach the goal. The walk has passed
  the horizon at \<open>k\<close> when that moment lies more than five years before \<open>now\<close>.
\<close>

definition week_qualifies :: "AppState \<Rightarrow> time \<Rightarrow> bool" where
  "week_qualifies state t =
     (list_ex (day_counted (fst (GetWeekBounds t)) (snd (GetWeekBounds t))) (Logs state)
      \<and> WeeklyGoal (Config state)
          \<le> credits LogTypeStudy
               (week_logs (fst (GetWeekBounds t)) (snd (GetWeekBounds t)) (Logs state)))"

definition weeks_back :: "time \<Rightarrow> nat \<Rightarrow> time" where
  "weeks_back now k = AddDate now 0 0 (- 7 * int k)"

definition beyond_horizon :: "time \<Rightarrow> nat \<Rightarrow> bool" where
  "beyond_horizon now k = Before (weeks_back now k) (AddDate now (- 5) 0 0)"




section \<open>Example inputs\<close>

text \<open>
  Wednesday 2024-01-10 and Tuesday 2024-01-09 on a UTC clock, and stores for that week:
  one with a Tuesday and a Sunday bucket, one with a negative BreakStart, one whose undo
  stack names a bucket that is not there.
\<close>

definition now_wed :: time where
  "now_wed = time_Date 2024 1 10 9 30 0 0 UTC"






definition state_dangling_undo :: AppState where
  "state_dangling_undo =
     \<lparr>Logs = [], WeeklySurplus = Map.empty, Streak = 0, BestSurplus = 0,
      UndoStack = [\<lparr>Undo_Log = \<lparr>Type = LogTypeStudy,
                                 Timestamp = time_Date 2024 1 10 9 30 0 0 UTC, Amount = 1\<rparr>,
                    DayDate = ''2024-01-10''\<rparr>],
      Config = \<lparr>WeeklyGoal = 90, BreakStart = 12\<rparr>\<rparr>"

text \<open>
  A store with three past weeks: 50, 100 and 90 study credits, three, two and one week
  before the week of 2024-01-10.
\<close>

definition state_streak :: AppState where
  "state_streak =
     \<lparr>Logs =
        [\<lparr>Date = ''2023-12-20'',
          Day_Logs = [\<lparr>Type = LogTypeStudy, Timestamp = time_Date 2023 12 20 10 0 0 0 UTC, Amount = 50\<rparr>]\<rparr>,
         \<lparr>Date = ''2023-12-27'',
          Day_Logs = [\<lparr>Type = LogTypeStudy, Timestamp = time_Date 2023 12 27 10 0 0 0 UTC, Amount = 100\<rparr>]\<rparr>,
         \<lparr>Date = ''2024-01-03'',
          Day_Logs = [\<lparr>Type = LogTypeStudy, Timestamp = time_Date 2024 1 3 10 0 0 0 UTC, Amount = 90\<rparr>]\<rparr>],
      WeeklySurplus = Map.empty, Streak = 0, BestSurplus = 0, UndoStack = [],
      Config = \<lparr>WeeklyGoal = 90, BreakStart = 12\<rparr>\<rparr>"

text \<open>
  A Wednesday morning on a clock five hours west of UTC, and a store with the Mondays of
  the previous and of the current week, as the tool itself writes them on such a machine.
\<close>

definition now_west :: time where
  "now_west = time_Date 2024 1 10 9 30 0 0 (- 18000)"

definition state_monday :: AppState where
  "state_monday =
     \<lparr>Logs =
        [\<lparr>Date = ''2024-01-01'',
          Day_Logs = [\<lparr>Type = LogTypeStudy, Timestamp = time_Date 2024 1 1 10 0 0 0 (- 18000),
                       Amount = 95\<rparr>]\<rparr>,
         \<lparr>Date = ''2024-01-08'',
          Day_Logs = [\<lparr>Type = LogTypeStudy, Timestamp = time_Date 2024 1 8 10 0 0 0 (- 18000),
                       Amount = 95\<rparr>]\<rparr>],
      WeeklySurplus = Map.empty, Streak = 0, BestSurplus = 0, UndoStack = [],
      Config = \<lparr>WeeklyGoal = 90, BreakStart = 12\<rparr>\<rparr>"

section \<open>Properties\<close>

subsection \<open>Decimal text facts\<close>

lemma of_char_digit_char: "n < 10 \<Longrightarrow> (of_char (digit_char n) :: nat) = 48 + n"
  by (simp add: digit_char_def)

lemma isDigit_digit_char: "n < 10 \<Longrightarrow> isDigit (digit_char n)"
  by (simp add: isDigit_def of_char_digit_char)

lemma digit_val_digit_char: "n < 10 \<Longrightarrow> digit_val (digit_char n) = n"
  by (simp add: digit_val_def of_char_digit_char)

lemma isDigit_not_dash: "isDigit c \<Longrightarrow> c \<noteq> CHR ''-''"
  by (auto simp: isDigit_def)



lemma isDigit_zero: "isDigit (CHR ''0'')" "digit_val (CHR ''0'') = 0"
  by (simp_all add: isDigit_def digit_val_def)

lemma dec_digits: "list_all isDigit (dec n)"
  by (induction n rule: dec.induct) (subst dec.simps, simp add: isDigit_digit_char)

lemma dec_not_Nil: "dec n \<noteq> []"
  by (subst dec.simps) simp

lemma digits_val_snoc: "digits_val (ds @ [c]) = 10 * digits_val ds + digit_val c"
  by (simp add: digits_val_def)

lemma digits_val_dec: "digits_val (dec n) = n"
proof (induction n rule: dec.induct)
  case (1 n)
  show ?case
  proof (cases "n < 10")
    case True
    then show ?thesis by (subst dec.simps) (simp add: digits_val_def digit_val_digit_char)
  next
    case False
    then have "digits_val (dec (n div 10)) = n div 10" using 1 by simp
    then show ?thesis using False
      by (subst dec.simps) (simp add: digits_val_snoc digit_val_digit_char)
  qed
qed

lemma length_dec:
  "n < 10 \<Longrightarrow> length (dec n) = 1"
  "n < 100 \<Longrightarrow> length (dec n) \<le> 2"
  "n < 1000 \<Longrightarrow> length (dec n) \<le> 3"
  "n < 10000 \<Longrightarrow> length (dec n) \<le> 4"
proof -
  show a: "length (dec n) = 1" if "n < 10" for n using that by (subst dec.simps) simp
  show b: "length (dec n) \<le> 2" if "n < 100" for n
    using that a[of "n div 10"] by (subst dec.simps) auto
  show c: "length (dec n) \<le> 3" if "n < 1000" for n
    using that b[of "n div 10"] by (subst dec.simps) auto
  show "length (dec n) \<le> 4" if "n < 10000" for n
    using that c[of "n div 10"] by (subst dec.simps) auto
qed

lemma digits_val_zeros: "digits_val (replicate k (CHR ''0'') @ ds) = digits_val ds"
proof -
  have "foldl (\<lambda>a c. 10 * a + digit_val c) 0 (replicate k (CHR ''0'')) = 0"
    by (induction k) (simp_all add: isDigit_zero)
  then show ?thesis by (simp add: digits_val_def)
qed

lemma pad_zero_dec:
  "list_all isDigit (pad_zero w (dec n))"
  "digits_val (pad_zero w (dec n)) = n"
  "pad_zero w (dec n) \<noteq> []"
  "length (dec n) \<le> w \<Longrightarrow> length (pad_zero w (dec n)) = w"
proof -
  have "list_all isDigit (replicate k (CHR ''0''))" for k
    by (induction k) (simp_all add: isDigit_zero)
  then show "list_all isDigit (pad_zero w (dec n))" by (simp add: pad_zero_def dec_digits)
qed (simp_all add: pad_zero_def digits_val_zeros digits_val_dec dec_not_Nil)


text \<open>Week identifiers are injective on (year, week) for two-digit weeks.\<close>

lemma fmt_d_inj: "fmt_d x = fmt_d y \<Longrightarrow> x = y"
proof -
  assume e: "fmt_d x = fmt_d y"
  have hd: "hd (dec n) \<noteq> CHR ''-''" for n
    using dec_digits[of n] dec_not_Nil[of n] isDigit_not_dash
    by (cases "dec n") auto
  have nd: "CHR ''-'' # dec a \<noteq> dec b" for a b
    using hd[of b] by (metis list.sel(1))
  show ?thesis
  proof (cases "x < 0")
    case True
    then have "y < 0" using e nd[of "nat (- x)" "nat y"] by (auto simp: fmt_d_def split: if_splits)
    then have "dec (nat (- x)) = dec (nat (- y))" using e True by (simp add: fmt_d_def)
    then have "nat (- x) = nat (- y)" using digits_val_dec by metis
    then show ?thesis using True \<open>y < 0\<close> by simp
  next
    case False
    then have "\<not> y < 0" using e nd[of "nat (- y)" "nat x"] by (auto simp: fmt_d_def split: if_splits)
    then have "dec (nat x) = dec (nat y)" using e False by (simp add: fmt_d_def)
    then have "nat x = nat y" using digits_val_dec by metis
    then show ?thesis using False \<open>\<not> y < 0\<close> by simp
  qed
qed

lemma fmt_02d_week:
  assumes "0 \<le> w" "w < 100"
  shows "fmt_02d w = pad_zero 2 (dec (nat w))" and "length (fmt_02d w) = 2"
  using assms length_dec(2)[of "nat w"] by (simp_all add: fmt_02d_def pad_zero_dec)

lemma Sprintf_d_02d_inj:
  assumes "Sprintf_d_02d y w = Sprintf_d_02d y' w'"
    and "0 \<le> w" "w < 100" "0 \<le> w'" "w' < 100"
  shows "y = y' \<and> w = w'"
proof -
  have "length (''-'' @ fmt_02d w) = length (''-'' @ fmt_02d w')"
    using assms fmt_02d_week(2) by simp
  then have "fmt_d y = fmt_d y'" and "fmt_02d w = fmt_02d w'"
    using assms(1) unfolding Sprintf_d_02d_def by simp_all
  then have "y = y'" and "digits_val (fmt_02d w) = digits_val (fmt_02d w')"
    using fmt_d_inj by simp_all
  then show ?thesis using assms(2-5) by (simp add: fmt_02d_week(1) pad_zero_dec)
qed

subsection \<open>Weeks apart have different identifiers\<close>

lemma AddDate_AddDate:
  "AddDate (AddDate t 0 0 a) 0 0 b = AddDate t 0 0 (a + b)"
  by (simp add: AddDate_days algebra_simps)

lemma ISOWeek_range:
  "1 \<le> snd (ISOWeek t)" "snd (ISOWeek t) \<le> 53"
proof -
  define dn where "dn = wall_day t + (if Thursday - Weekday t = 4 then - 3 else Thursday - Weekday t)"
  obtain y yd where yy: "year_yday dn = (y, yd)" by (cases "year_yday dn")
  have w: "snd (ISOWeek t) = yd div 7 + 1"
    unfolding ISOWeek_def Let_def dn_def[symmetric] yy by simp
  note Y = year_yday_props[OF yy]
  have "0 \<le> yd div 7" using Y(2) by (simp add: pos_imp_zdiv_nonneg_iff)
  moreover have "yd div 7 \<le> 365 div 7" using Y(3) by (rule zdiv_mono1) simp
  ultimately show "1 \<le> snd (ISOWeek t)" "snd (ISOWeek t) \<le> 53" unfolding w by simp_all
qed

lemma ISOWeek_weeks_back:
  assumes "1 \<le> k"
  shows "ISOWeek (AddDate t 0 0 (- 7 * k)) \<noteq> ISOWeek t"
proof
  assume e: "ISOWeek (AddDate t 0 0 (- 7 * k)) = ISOWeek t"
  define d where "d = (if Thursday - Weekday t = 4 then - 3 else Thursday - Weekday t)"
  have wd: "Weekday (AddDate t 0 0 (- 7 * k)) = Weekday t"
    unfolding Weekday_AddDate using mod_mult_self2[of "Weekday t" 7 "- k"]
    by (simp add: Weekday_def)
  obtain y yd where yy: "year_yday (wall_day t + d) = (y, yd)"
    by (cases "year_yday (wall_day t + d)")
  obtain y' yd' where yy': "year_yday (wall_day t - 7 * k + d) = (y', yd')"
    by (cases "year_yday (wall_day t - 7 * k + d)")
  have i1: "ISOWeek t = (y, yd div 7 + 1)"
    unfolding ISOWeek_def Let_def d_def[symmetric] yy by simp
  have i2: "ISOWeek (AddDate t 0 0 (- 7 * k)) = (y', yd' div 7 + 1)"
    unfolding ISOWeek_def Let_def wd d_def[symmetric] wall_day_AddDate using yy' by simp
  from e i1 i2 have same: "y' = y" "yd' div 7 = yd div 7" by simp_all
  have "daysSinceEpoch y + yd = wall_day t + d" using year_yday_props(1)[OF yy] .
  moreover have "daysSinceEpoch y + yd' = wall_day t - 7 * k + d"
    using year_yday_props(1)[OF yy'] same by simp
  ultimately have "yd' = yd + 7 * (- k)" by linarith
  then have "yd' div 7 = yd div 7 + (- k)" by (simp only: div_mult_self2[of 7 yd "- k"] simp_thms)
  then show False using same assms by simp
qed

lemma GetWeekID_weeks_back:
  assumes "1 \<le> k"
  shows "GetWeekID (AddDate t 0 0 (- 7 * k)) \<noteq> GetWeekID t"
proof
  assume e: "GetWeekID (AddDate t 0 0 (- 7 * k)) = GetWeekID t"
  obtain y w where a: "ISOWeek t = (y, w)" by (cases "ISOWeek t")
  obtain y' w' where b: "ISOWeek (AddDate t 0 0 (- 7 * k)) = (y', w')"
    by (cases "ISOWeek (AddDate t 0 0 (- 7 * k))")
  have r: "0 \<le> w" "w < 100" "0 \<le> w'" "w' < 100"
    using ISOWeek_range[of t] ISOWeek_range[of "AddDate t 0 0 (- 7 * k)"] a b by simp_all
  have "Sprintf_d_02d y' w' = Sprintf_d_02d y w"
    using e unfolding GetWeekID_def a b by simp
  then have "y' = y \<and> w' = w" using Sprintf_d_02d_inj r by blast
  then show False using ISOWeek_weeks_back[OF assms, of t] a b by simp
qed

subsection \<open>Frame lemmas\<close>

lemma RecalculateWeeklyStats_frame:
  "Logs (RecalculateWeeklyStats state weekID) = Logs state"
  "UndoStack (RecalculateWeeklyStats state weekID) = UndoStack state"
  "Streak (RecalculateWeeklyStats state weekID) = Streak state"
  "Config (RecalculateWeeklyStats state weekID) = Config state"
  by (simp_all add: RecalculateWeeklyStats_def Let_def split: option.splits prod.splits)

lemma RecalculateOverallStats_frame:
  "Logs (RecalculateOverallStats now state) = Logs state"
  "UndoStack (RecalculateOverallStats now state) = UndoStack state"
  "WeeklySurplus (RecalculateOverallStats now state) = WeeklySurplus state"
  "BestSurplus (RecalculateOverallStats now state) = BestSurplus state"
  "Config (RecalculateOverallStats now state) = Config state"
  by (simp_all add: RecalculateOverallStats_def)

lemma GetOrCreateDayLogs_frame:
  "Streak (fst (GetOrCreateDayLogs state t)) = Streak state"
  "UndoStack (fst (GetOrCreateDayLogs state t)) = UndoStack state"
  "WeeklySurplus (fst (GetOrCreateDayLogs state t)) = WeeklySurplus state"
  "BestSurplus (fst (GetOrCreateDayLogs state t)) = BestSurplus state"
  "Config (fst (GetOrCreateDayLogs state t)) = Config state"
  by (simp_all add: GetOrCreateDayLogs_def Let_def split: option.splits)

subsection \<open>AddLog: validation and frame\<close>

text \<open>
  C6. AddLog returns an error when the timestamp falls on a Sunday or when the amount is
  not positive, whatever the kind and whatever the amount on a Sunday, and the state it
  leaves behind is the state it was given: no bucket, entry or undo record is added and
  neither the surplus map nor BestSurplus changes.
\<close>

theorem AddLog_invalid_fails_unchanged:
  assumes "Weekday timestamp = Sunday \<or> amount \<le> 0"
  shows "\<exists>e. AddLog state logType amount timestamp = (state, Some e)"
  using assms by (auto simp: AddLog_def)

theorem AddLog_invalid_fails_unchanged_witness:
  "(Weekday (time_Date 2024 1 7 12 0 0 0 UTC) = Sunday \<or> (5::int) \<le> 0)
   \<and> (\<exists>e. AddLog \<lparr>Logs = [], WeeklySurplus = Map.empty, Streak = 0, BestSurplus = 0,
                    UndoStack = [], Config = \<lparr>WeeklyGoal = 90, BreakStart = 12\<rparr>\<rparr>
               LogTypeBreak 5 (time_Date 2024 1 7 12 0 0 0 UTC)
             = (\<lparr>Logs = [], WeeklySurplus = Map.empty, Streak = 0, BestSurplus = 0,
                  UndoStack = [], Config = \<lparr>WeeklyGoal = 90, BreakStart = 12\<rparr>\<rparr>, Some e))"
proof -
  have h: "Weekday (time_Date 2024 1 7 12 0 0 0 UTC) = Sunday \<or> (5::int) \<le> 0"
    by (simp add: Weekday_def wall_day_def wall_seconds_def time_Date_def daysSinceEpoch_def
        daysBefore_simps isLeap_def UTC_def Sunday_def)
  show ?thesis using h AddLog_invalid_fails_unchanged[OF h] by blast
qed

lemma AddLog_valid_succeeds:
  "Weekday timestamp \<noteq> Sunday \<Longrightarrow> 0 < amount \<Longrightarrow>
     snd (AddLog state logType amount timestamp) = None"
  by (simp add: AddLog_def Let_def split: prod.splits)

lemma Weekday_time_Date_2024_01_10:
  "Weekday (time_Date 2024 1 10 9 30 0 0 UTC) = 3"
  by (simp add: Weekday_def wall_day_def wall_seconds_def time_Date_def daysSinceEpoch_def
      daysBefore_simps isLeap_def UTC_def)



text \<open>
  C9. A successful AddLog leaves Streak as it was: it recalculates the weekly surplus of
  the affected week and never the overall statistics.
\<close>

theorem AddLog_keeps_Streak:
  assumes "snd (AddLog state logType amount timestamp) = None"
  shows "Streak (fst (AddLog state logType amount timestamp)) = Streak state"
proof -
  obtain state1 i where g: "GetOrCreateDayLogs state timestamp = (state1, i)"
    by (cases "GetOrCreateDayLogs state timestamp")
  have "Streak state1 = Streak state"
    using GetOrCreateDayLogs_frame(1)[of state timestamp] g by simp
  then show ?thesis
    using g by (simp add: AddLog_def Let_def RecalculateWeeklyStats_frame)
qed

theorem AddLog_keeps_Streak_witness:
  "snd (AddLog \<lparr>Logs = [], WeeklySurplus = Map.empty, Streak = 4, BestSurplus = 0,
                UndoStack = [], Config = \<lparr>WeeklyGoal = 90, BreakStart = 12\<rparr>\<rparr>
          LogTypeStudy 95 (time_Date 2024 1 10 9 30 0 0 UTC)) = None
   \<and> Streak (fst (AddLog \<lparr>Logs = [], WeeklySurplus = Map.empty, Streak = 4, BestSurplus = 0,
                UndoStack = [], Config = \<lparr>WeeklyGoal = 90, BreakStart = 12\<rparr>\<rparr>
          LogTypeStudy 95 (time_Date 2024 1 10 9 30 0 0 UTC))) = 4"
proof -
  have h: "snd (AddLog \<lparr>Logs = [], WeeklySurplus = Map.empty, Streak = 4, BestSurplus = 0,
                UndoStack = [], Config = \<lparr>WeeklyGoal = 90, BreakStart = 12\<rparr>\<rparr>
          LogTypeStudy 95 (time_Date 2024 1 10 9 30 0 0 UTC)) = None"
    by (rule AddLog_valid_succeeds) (simp_all add: Weekday_time_Date_2024_01_10 Sunday_def)
  show ?thesis using h AddLog_keeps_Streak[OF h] by simp
qed

subsection \<open>UndoLastAction on an inconsistent undo stack\<close>

text \<open>
  C10. UndoLastAction is not atomic when the undo stack is inconsistent with the store:
  if the stack is not empty and its top record names a day bucket that is missing, or a
  bucket that holds no matching entry, the call returns an error and the state it leaves
  behind is the input state with exactly that top record popped.
\<close>

theorem UndoLastAction_error_pops:
  assumes "UndoStack state \<noteq> []"
    and "GetDayLogs state (DayDate (last (UndoStack state))) = None
         \<or> (\<exists>i. GetDayLogs state (DayDate (last (UndoStack state))) = Some i
                \<and> find_log (Day_Logs (Logs state ! i)) (Undo_Log (last (UndoStack state))) = None)"
  shows "\<exists>e. UndoLastAction now state = (state\<lparr>UndoStack := butlast (UndoStack state)\<rparr>, Inl e)"
  using assms by (auto simp: UndoLastAction_def GetDayLogs_def Let_def)

theorem UndoLastAction_error_pops_witness:
  "UndoStack state_dangling_undo \<noteq> []
   \<and> GetDayLogs state_dangling_undo (DayDate (last (UndoStack state_dangling_undo))) = None
   \<and> (\<exists>e. UndoLastAction (time_Date 2024 1 11 8 0 0 0 UTC) state_dangling_undo
           = (\<lparr>Logs = [], WeeklySurplus = Map.empty, Streak = 0, BestSurplus = 0,
               UndoStack = [], Config = \<lparr>WeeklyGoal = 90, BreakStart = 12\<rparr>\<rparr>, Inl e))"
proof -
  have h1: "UndoStack state_dangling_undo \<noteq> []"
    by (simp add: state_dangling_undo_def)
  have h2: "GetDayLogs state_dangling_undo (DayDate (last (UndoStack state_dangling_undo))) = None"
    by (simp add: state_dangling_undo_def GetDayLogs_def)
  have h3: "state_dangling_undo\<lparr>UndoStack := butlast (UndoStack state_dangling_undo)\<rparr>
      = \<lparr>Logs = [], WeeklySurplus = Map.empty, Streak = 0, BestSurplus = 0,
               UndoStack = [], Config = \<lparr>WeeklyGoal = 90, BreakStart = 12\<rparr>\<rparr>"
    by (simp add: state_dangling_undo_def)
  show ?thesis
    using h1 h2 UndoLastAction_error_pops[OF h1, of "time_Date 2024 1 11 8 0 0 0 UTC"]
    unfolding h3 by blast
qed

subsection \<open>Week bounds\<close>

lemma Weekday_range: "0 \<le> Weekday t" "Weekday t < 7"
  by (simp_all add: Weekday_def)

text \<open>
  The bounds of the week of \<open>t\<close>: midnight, in the location of \<open>t\<close>, of the Monday on or
  before the day of \<open>t\<close> and of the Sunday six days later.
\<close>

lemma GetWeekBounds_eq:
  "GetWeekBounds t =
     (\<lparr>nanos = ((wall_day t - (Weekday t + 6) mod 7) * 86400 - zone t) * 1000000000,
       zone = zone t\<rparr>,
      \<lparr>nanos = ((wall_day t - (Weekday t + 6) mod 7 + 6) * 86400 - zone t) * 1000000000,
       zone = zone t\<rparr>)"
proof -
  have adj: "(if Weekday t - 1 < 0 then 6 else Weekday t - 1) = (Weekday t + 6) mod 7"
    using Weekday_range[of t] by presburger
  define a where "a = (Weekday t + 6) mod 7"
  define s0 where "s0 = AddDate t 0 0 (- a)"
  define e0 where "e0 = AddDate s0 0 0 6"
  have ws: "wall_day s0 = wall_day t - a" unfolding s0_def wall_day_AddDate by simp
  have we: "wall_day e0 = wall_day t - a + 6" unfolding e0_def wall_day_AddDate ws by simp
  have "GetWeekBounds t =
      (time_Date (time_Year s0) (time_Month s0) (time_Day s0) 0 0 0 0 (zone t),
       time_Date (time_Year e0) (time_Month e0) (time_Day e0) 0 0 0 0 (zone t))"
    unfolding GetWeekBounds_def Let_def adj a_def[symmetric] s0_def[symmetric] e0_def[symmetric]
    by simp
  then show ?thesis
    using time_Date_civil[of s0 0 0 0 0 0 "zone t"] time_Date_civil[of e0 0 0 0 0 0 "zone t"]
    unfolding ws we a_def by simp
qed

text \<open>
  A parsed date is midnight UTC of its day. When the clock's location is UTC it lies in
  the week of \<open>t\<close> exactly when its day is one of the seven days from that Monday on.
\<close>

lemma in_week_UTC:
  assumes "zone t = UTC"
  shows "in_week \<lparr>nanos = dn * 86400 * 1000000000, zone = UTC\<rparr>
           (fst (GetWeekBounds t)) (snd (GetWeekBounds t))
     \<longleftrightarrow> wall_day t - (Weekday t + 6) mod 7 \<le> dn \<and> dn \<le> wall_day t - (Weekday t + 6) mod 7 + 6"
  unfolding GetWeekBounds_eq in_week_def Equal_def After_def Before_def
  using assms by (auto simp: UTC_def)

subsection \<open>The loops, declaratively\<close>

lemma credits_simps:
  "credits kind [] = 0"
  "credits kind (l # ls) = (if Type l = kind then Amount l else 0) + credits kind ls"
  "credits kind (xs @ ys) = credits kind xs + credits kind ys"
  by (simp_all add: credits_def)


lemma study_logs_credits: "study_logs ls a = a + credits LogTypeStudy ls"
  by (induction ls arbitrary: a) (auto simp: credits_simps)

lemma week_logs_simps:
  "week_logs s e [] = []"
  "week_logs s e (day # days) = (if day_counted s e day then Day_Logs day else []) @ week_logs s e days"
  by (simp_all add: week_logs_def)


lemma week_study_credits:
  "week_study s e days a = a + credits LogTypeStudy (week_logs s e days)"
  by (induction days arbitrary: a)
     (auto simp: week_logs_simps credits_simps study_logs_credits day_counted_def split: option.splits)

lemma week_scan_credits:
  "week_scan s e days acc =
     (fst acc + credits LogTypeStudy (week_logs s e days),
      snd acc \<or> list_ex (day_counted s e) days)"
  by (induction days arbitrary: acc)
     (auto simp: week_logs_simps credits_simps study_logs_credits day_counted_def split: option.splits)

lemma ResetWeekData_loop_filter:
  "ResetWeekData_loop s e days newLogs = newLogs @ filter (\<lambda>day. \<not> day_in_week s e day) days"
  by (induction days arbitrary: newLogs)
     (auto simp: day_in_week_def in_week_def Before_def After_def Equal_def split: option.splits)




subsection \<open>ResetWeekData\<close>

text \<open>
  What ResetWeekData does: the store keeps exactly the buckets whose date does not parse
  or, read as midnight UTC, lies before the start or after the end of the current week,
  unchanged and in their order; the current week's key leaves the surplus map and the
  other keys stay; the undo stack is emptied, whatever it held.
\<close>

lemma ResetWeekData_effect:
  "snd (ResetWeekData now state) = None
   \<and> Logs (fst (ResetWeekData now state))
       = filter (\<lambda>day. \<not> day_in_week (fst (GetWeekBounds now)) (snd (GetWeekBounds now)) day)
           (Logs state)
   \<and> WeeklySurplus (fst (ResetWeekData now state)) = (WeeklySurplus state)(GetWeekID now := None)
   \<and> UndoStack (fst (ResetWeekData now state)) = []"
  by (simp add: ResetWeekData_def Let_def RecalculateOverallStats_frame ResetWeekData_loop_filter
      split: prod.splits)

text \<open>
  C8. ResetWeekData does not remove every bucket whose date falls within the current
  week's Monday-to-Sunday bounds. The bounds are midnights in the clock's location and a
  bucket's date is parsed as midnight UTC, so on a clock west of UTC the Monday of the
  current week lies before the start of the week. On Wednesday 2024-01-10, five hours
  west of UTC, the week runs from 2024-01-08 to 2024-01-14 and the bucket of Monday
  2024-01-08 is still in the store after the reset. (With a UTC clock the buckets that go
  are those of the seven dates of the week.)
\<close>

theorem ResetWeekData_keeps_monday_west_of_UTC:
  "Format (fst (GetWeekBounds now_west)) = ''2024-01-08''
   \<and> Format (snd (GetWeekBounds now_west)) = ''2024-01-14''
   \<and> map Date (Logs (fst (ResetWeekData now_west state_monday))) = [''2024-01-01'', ''2024-01-08'']"
  by code_simp

theorem ResetWeekData_keeps_monday_west_of_UTC_witness:
  "''2024-01-08'' \<in> set (map Date (Logs (fst (ResetWeekData now_west state_monday))))"
proof -
  have "map Date (Logs (fst (ResetWeekData now_west state_monday))) = [''2024-01-01'', ''2024-01-08'']"
    using ResetWeekData_keeps_monday_west_of_UTC by blast
  then show ?thesis by simp
qed

subsection \<open>CalculateCurrentWeekStats\<close>








subsection \<open>Week identifiers\<close>

text \<open>
  C4. The reverse resolution of RecalculateWeeklyStats is not a right inverse of
  GetWeekID on 2000-01-01 .. 2099-12-31. Monday 2002-12-23 lies in week 2002-52. The
  first Monday of 2002 is January 7, and 51 weeks later is 2002-12-30, which is in ISO
  week 2003-01; the adjustment then adds 52 - 1 = 51 more weeks and lands on 2003-12-22,
  in week 2003-52.
\<close>

theorem week_date_not_inverse_2002_52:
  "GetWeekID (time_Date 2002 12 23 0 0 0 0 UTC) = ''2002-52''
   \<and> map_option Format (week_date ''2002-52'') = Some ''2003-12-22''
   \<and> map_option GetWeekID (week_date ''2002-52'') = Some ''2003-52''"
  by code_simp

theorem week_date_not_inverse_2002_52_witness:
  "map_option GetWeekID (week_date (GetWeekID (time_Date 2002 12 23 0 0 0 0 UTC)))
     \<noteq> Some (GetWeekID (time_Date 2002 12 23 0 0 0 0 UTC))"
proof -
  note T = week_date_not_inverse_2002_52
  have a: "GetWeekID (time_Date 2002 12 23 0 0 0 0 UTC) = ''2002-52''" using T by blast
  have c: "map_option GetWeekID (week_date ''2002-52'') = Some ''2003-52''" using T by blast
  show ?thesis unfolding a c by simp
qed

subsection \<open>RecalculateOverallStats\<close>

lemma weeks_back_Suc: "AddDate (weeks_back now k) 0 0 (- 7) = weeks_back now (Suc k)"
  by (simp add: weeks_back_def AddDate_AddDate algebra_simps)

lemma beyond_horizon_mono:
  assumes "beyond_horizon now j" and "j \<le> j'"
  shows "beyond_horizon now j'"
proof -
  have "int j \<le> int j'" using assms(2) by simp
  then have "- 7 * int j' * 86400000000000 \<le> - 7 * int j * 86400000000000" by simp
  then show ?thesis
    using assms(1) unfolding beyond_horizon_def weeks_back_def Before_def AddDate_days[of now]
    by simp
qed

lemma beyond_horizon_ex: "\<exists>K. beyond_horizon now K"
proof -
  define g where "g = nanos now - nanos (AddDate now (- 5) 0 0)"
  define K where "K = nat g + 1"
  have "g < int K" unfolding K_def by simp
  also have "int K \<le> 7 * int K * 86400000000000" by simp
  finally have "nanos now + - 7 * int K * 86400000000000 < nanos (AddDate now (- 5) 0 0)"
    unfolding g_def by simp
  then have "beyond_horizon now K"
    unfolding beyond_horizon_def weeks_back_def Before_def AddDate_days[of now] by simp
  then show ?thesis ..
qed

lemma week_qualifies_Logs: "week_qualifies state t \<Longrightarrow> Logs state \<noteq> []"
  by (auto simp: week_qualifies_def)

text \<open>One iteration of the walk, at the \<open>k\<close>-th week before the current one.\<close>

lemma streak_loop_step:
  assumes "1 \<le> k"
  shows "streak_loop state now (GetWeekID now) (weeks_back now k) n =
     (if \<not> week_qualifies state (weeks_back now k) then n
      else if beyond_horizon now (Suc k) then n + 1
      else streak_loop state now (GetWeekID now) (weeks_back now (Suc k)) (n + 1))"
proof -
  have id: "GetWeekID (weeks_back now k) \<noteq> GetWeekID now"
    unfolding weeks_back_def using GetWeekID_weeks_back[of "int k" now] assms by simp
  have q: "(\<not> snd (week_scan (fst (GetWeekBounds (weeks_back now k)))
                 (snd (GetWeekBounds (weeks_back now k))) (Logs state) (0, False))
            \<or> fst (week_scan (fst (GetWeekBounds (weeks_back now k)))
                 (snd (GetWeekBounds (weeks_back now k))) (Logs state) (0, False))
                < WeeklyGoal (Config state))
          = (\<not> week_qualifies state (weeks_back now k))"
    unfolding week_scan_credits week_qualifies_def by auto
  show ?thesis
    apply (subst streak_loop.simps)
    unfolding q weeks_back_Suc beyond_horizon_def[symmetric]
    using id week_qualifies_Logs[of state "weeks_back now k"] by auto
qed

lemma streak_loop_spec:
  assumes "beyond_horizon now K" and "1 \<le> k"
  shows "\<exists>m. k \<le> Suc m
     \<and> streak_loop state now (GetWeekID now) (weeks_back now k) n = n + int (Suc m - k)
     \<and> (\<forall>j\<in>{k..m}. week_qualifies state (weeks_back now j))
     \<and> (\<forall>j\<in>{Suc k..m}. \<not> beyond_horizon now j)
     \<and> (\<not> week_qualifies state (weeks_back now (Suc m))
        \<or> (k \<le> m \<and> beyond_horizon now (Suc m)))"
  using assms(2)
proof (induction "K - k" arbitrary: k n rule: less_induct)
  case less
  note step = streak_loop_step[OF less.prems, of state now n]
  show ?case
  proof (cases "week_qualifies state (weeks_back now k)")
    case False
    obtain m where m: "k = Suc m" using less.prems by (cases k) auto
    show ?thesis
      apply (rule exI[of _ m])
      using False step m by auto
  next
    case True
    show ?thesis
    proof (cases "beyond_horizon now (Suc k)")
      case b: True
      show ?thesis
        apply (rule exI[of _ k])
        using True b step by auto
    next
      case nb: False
      have "Suc k < K"
        using nb beyond_horizon_mono[OF assms(1), of "Suc k"] by (cases "Suc k < K") auto
      then have lt: "K - Suc k < K - k" by simp
      from less.hyps[OF lt, of "n + 1"] obtain m where m:
        "Suc k \<le> Suc m"
        "streak_loop state now (GetWeekID now) (weeks_back now (Suc k)) (n + 1)
           = n + 1 + int (Suc m - Suc k)"
        "\<forall>j\<in>{Suc k..m}. week_qualifies state (weeks_back now j)"
        "\<forall>j\<in>{Suc (Suc k)..m}. \<not> beyond_horizon now j"
        "\<not> week_qualifies state (weeks_back now (Suc m))
           \<or> (Suc k \<le> m \<and> beyond_horizon now (Suc m))"
        by auto
      have q: "\<forall>j\<in>{k..m}. week_qualifies state (weeks_back now j)"
      proof
        fix j assume "j \<in> {k..m}"
        then have "j = k \<or> j \<in> {Suc k..m}" by auto
        then show "week_qualifies state (weeks_back now j)" using True m(3) by auto
      qed
      have h: "\<forall>j\<in>{Suc k..m}. \<not> beyond_horizon now j"
      proof
        fix j assume "j \<in> {Suc k..m}"
        then have "j = Suc k \<or> j \<in> {Suc (Suc k)..m}" by auto
        then show "\<not> beyond_horizon now j" using nb m(4) by auto
      qed
      have r: "streak_loop state now (GetWeekID now) (weeks_back now k) n = n + int (Suc m - k)"
        using step True nb m(1,2) by (simp add: Suc_diff_le)
      show ?thesis
        apply (rule exI[of _ m])
        using m(1,5) q h r by auto
    qed
  qed
qed

text \<open>
  What RecalculateOverallStats does: it sets Streak to the number \<open>m\<close> of consecutive
  weeks, walking back from the week before the current one, that each hold at least one
  counted (non-Sunday) bucket and reach WeeklyGoal with their study credits: weeks 1 to
  \<open>m\<close> qualify; the walk stops at week \<open>m + 1\<close> because that week does not qualify, or
  because, after at least one counted week, it lies more than five years back; none of the
  weeks it went on to lies beyond that horizon; and an empty store gives 0. A bucket lies
  in a week when its date, read as midnight UTC, is between the bounds of the week.
\<close>

lemma RecalculateOverallStats_streak:
  "\<exists>m. Streak (RecalculateOverallStats now state) = int m
     \<and> (\<forall>j\<in>{1..m}. week_qualifies state (weeks_back now j))
     \<and> (\<forall>j\<in>{2..m}. \<not> beyond_horizon now j)
     \<and> (\<not> week_qualifies state (weeks_back now (Suc m))
        \<or> (1 \<le> m \<and> beyond_horizon now (Suc m)))
     \<and> (Logs state = [] \<longrightarrow> m = 0)"
proof -
  obtain K where K: "beyond_horizon now K" using beyond_horizon_ex by blast
  from streak_loop_spec[OF K, of 1 state 0] obtain m where m:
    "streak_loop state now (GetWeekID now) (weeks_back now 1) 0 = int (Suc m - 1)"
    "\<forall>j\<in>{1..m}. week_qualifies state (weeks_back now j)"
    "\<forall>j\<in>{Suc 1..m}. \<not> beyond_horizon now j"
    "\<not> week_qualifies state (weeks_back now (Suc m)) \<or> (1 \<le> m \<and> beyond_horizon now (Suc m))"
    by auto
  have e: "Logs state = [] \<longrightarrow> m = 0"
  proof
    assume "Logs state = []"
    then have "\<not> week_qualifies state (weeks_back now 1)" by (simp add: week_qualifies_def)
    then show "m = 0" using m(2) by (cases m) auto
  qed
  have "Streak (RecalculateOverallStats now state) = int m"
    using m(1) by (simp add: RecalculateOverallStats_def weeks_back_def)
  then show ?thesis using m(2,3,4) e by (auto simp: numeral_2_eq_2)
qed


lemma state_streak_weeks:
  "week_qualifies state_streak (weeks_back now_wed 1)"
  "week_qualifies state_streak (weeks_back now_wed 2)"
  "\<not> week_qualifies state_streak (weeks_back now_wed 3)"
  "\<not> beyond_horizon now_wed 2"
  by code_simp+

lemma RecalculateOverallStats_streak_example:
  "Streak (RecalculateOverallStats now_wed state_streak) = 2"
proof -
  from RecalculateOverallStats_streak[of now_wed state_streak] obtain m where m:
    "Streak (RecalculateOverallStats now_wed state_streak) = int m"
    "\<forall>j\<in>{1..m}. week_qualifies state_streak (weeks_back now_wed j)"
    "\<not> week_qualifies state_streak (weeks_back now_wed (Suc m))
       \<or> (1 \<le> m \<and> beyond_horizon now_wed (Suc m))"
    by blast
  have "m \<noteq> 0"
  proof
    assume "m = 0"
    then have "\<not> week_qualifies state_streak (weeks_back now_wed 1)" using m(3) by simp
    then show False using state_streak_weeks(1) by simp
  qed
  moreover have "m \<noteq> 1"
  proof
    assume "m = 1"
    then have "\<not> week_qualifies state_streak (weeks_back now_wed 2) \<or> beyond_horizon now_wed 2"
      using m(3) by (simp add: numeral_2_eq_2)
    then show False using state_streak_weeks(2,4) by simp
  qed
  moreover have "\<not> 3 \<le> m"
  proof
    assume "3 \<le> m"
    then have "3 \<in> {1..m}" by simp
    then show False using m(2) state_streak_weeks(3) by blast
  qed
  ultimately have "m = 2" by arith
  then show ?thesis using m(1) by simp
qed


text \<open>
  C3. The streak is not always the number of consecutive past weeks that hold a
  non-Sunday bucket and reach the goal. On a clock west of UTC the Monday of a week is
  not counted for that week (the same comparison of a date parsed as midnight UTC with
  bounds at local midnight as in ResetWeekData). On Wednesday 2024-01-10, five hours west
  of UTC, the week before runs from 2024-01-01 to 2024-01-07; the store holds 95 study
  credits on Monday 2024-01-01 and the goal is 90, yet the streak is 0.
\<close>

theorem RecalculateOverallStats_misses_monday_west_of_UTC:
  "Format (fst (GetWeekBounds (weeks_back now_west 1))) = ''2024-01-01''
   \<and> Format (snd (GetWeekBounds (weeks_back now_west 1))) = ''2024-01-07''
   \<and> Streak (RecalculateOverallStats now_west state_monday) = 0"
  by code_simp

theorem RecalculateOverallStats_misses_monday_west_of_UTC_witness:
  "Streak (RecalculateOverallStats now_west state_monday) \<noteq> 1"
proof -
  have "Streak (RecalculateOverallStats now_west state_monday) = 0"
    using RecalculateOverallStats_misses_monday_west_of_UTC by blast
  then show ?thesis by simp
qed

subsection \<open>AddLog followed by UndoLastAction\<close>






subsection \<open>Finding and creating buckets\<close>








subsection \<open>Scanning a week identifier back\<close>









subsection \<open>Years of nearby days\<close>







subsection \<open>Formatting a date and parsing it back\<close>















end
